theory Spec2Isabelle
  imports Complex_Main
begin

section \<open>JavaScript numbers\<close>

text \<open>
  Every coordinate of the engine is a JavaScript \<open>number\<close>. The model keeps the three
  non-finite values apart from the finite ones, so that a comparison with \<open>NaN\<close> is false
  and a division by zero gives an infinity, as in the language. Finite values are
  computed exactly: rounding to 53 bits, overflow and the sign of zero are left out
  (zero is \<open>+0\<close>). The layout constants below stay far away from each other (the
  smallest distance the theorems rely on is 16 canvas units), so a rounding error of one
  unit in the last place changes none of the comparisons; \<open>grid_margin\<close> below makes
  this precise. \<open>inverse\<close> is there for the division sign only.
\<close>

datatype number = NaN | NegInf | Num real | PosInf

instantiation number :: "{plus, minus, times, inverse, ord}"
begin

fun plus_number :: "number \<Rightarrow> number \<Rightarrow> number" where
  "plus_number (Num a) (Num b) = Num (a + b)"
| "plus_number NaN _ = NaN"
| "plus_number _ NaN = NaN"
| "plus_number PosInf NegInf = NaN"
| "plus_number NegInf PosInf = NaN"
| "plus_number PosInf _ = PosInf"
| "plus_number _ PosInf = PosInf"
| "plus_number NegInf _ = NegInf"
| "plus_number _ NegInf = NegInf"

fun minus_number :: "number \<Rightarrow> number \<Rightarrow> number" where
  "minus_number (Num a) (Num b) = Num (a - b)"
| "minus_number NaN _ = NaN"
| "minus_number _ NaN = NaN"
| "minus_number PosInf PosInf = NaN"
| "minus_number NegInf NegInf = NaN"
| "minus_number PosInf _ = PosInf"
| "minus_number _ PosInf = NegInf"
| "minus_number NegInf _ = NegInf"
| "minus_number _ NegInf = PosInf"

fun times_number :: "number \<Rightarrow> number \<Rightarrow> number" where
  "times_number (Num a) (Num b) = Num (a * b)"
| "times_number NaN _ = NaN"
| "times_number _ NaN = NaN"
| "times_number PosInf (Num b) = (if b = 0 then NaN else if 0 < b then PosInf else NegInf)"
| "times_number NegInf (Num b) = (if b = 0 then NaN else if 0 < b then NegInf else PosInf)"
| "times_number (Num a) PosInf = (if a = 0 then NaN else if 0 < a then PosInf else NegInf)"
| "times_number (Num a) NegInf = (if a = 0 then NaN else if 0 < a then NegInf else PosInf)"
| "times_number PosInf PosInf = PosInf"
| "times_number NegInf NegInf = PosInf"
| "times_number PosInf NegInf = NegInf"
| "times_number NegInf PosInf = NegInf"

fun divide_number :: "number \<Rightarrow> number \<Rightarrow> number" where
  "divide_number (Num a) (Num b) =
     (if b = 0 then (if a = 0 then NaN else if 0 < a then PosInf else NegInf)
      else Num (a / b))"
| "divide_number NaN _ = NaN"
| "divide_number _ NaN = NaN"
| "divide_number (Num a) PosInf = Num 0"
| "divide_number (Num a) NegInf = Num 0"
| "divide_number PosInf (Num b) = (if 0 \<le> b then PosInf else NegInf)"
| "divide_number NegInf (Num b) = (if 0 \<le> b then NegInf else PosInf)"
| "divide_number PosInf _ = NaN"
| "divide_number NegInf _ = NaN"

fun inverse_number :: "number \<Rightarrow> number" where
  "inverse_number (Num b) = (if b = 0 then PosInf else Num (1 / b))"
| "inverse_number NaN = NaN"
| "inverse_number PosInf = Num 0"
| "inverse_number NegInf = Num 0"

fun less_eq_number :: "number \<Rightarrow> number \<Rightarrow> bool" where
  "less_eq_number (Num a) (Num b) = (a \<le> b)"
| "less_eq_number NaN _ = False"
| "less_eq_number _ NaN = False"
| "less_eq_number NegInf _ = True"
| "less_eq_number _ PosInf = True"
| "less_eq_number PosInf _ = False"
| "less_eq_number _ NegInf = False"

fun less_number :: "number \<Rightarrow> number \<Rightarrow> bool" where
  "less_number (Num a) (Num b) = (a < b)"
| "less_number NaN _ = False"
| "less_number _ NaN = False"
| "less_number PosInf _ = False"
| "less_number _ NegInf = False"
| "less_number NegInf _ = True"
| "less_number _ PosInf = True"

instance ..

end

section \<open>Data model\<close>

text \<open>
  \<open>TouchPoint\<close> and \<open>Tile\<close> of the engine. The fields \<open>x\<close>, \<open>y\<close>, \<open>width\<close> and
  \<open>height\<close> carry the name of their type as a prefix; \<open>badge\<close> is optional.
\<close>

record touchPoint =
  touch_x :: number
  touch_y :: number
  pressure :: number

record tile =
  tile_x :: number
  tile_y :: number
  tile_width :: number
  tile_height :: number
  label :: string
  badge :: "string option"


text \<open>
  The drawing surface is the host's. A gradient is the object that
  \<open>createLinearGradient\<close>/\<open>createRadialGradient\<close> returns and \<open>addColorStop\<close> extends;
  a \<open>call\<close> is one method call or property assignment on the 2D context. The engine
  keeps the calls it has made in \<open>ctx\<close>, in order. The calls are recorded, not
  executed: what the host paints from them, and whether it accepts their arguments, is
  outside the engine.
\<close>

datatype gradient =
  LinearGradient number number number number "(number \<times> string) list"
| RadialGradient number number number number number number "(number \<times> string) list"

fun addColorStop :: "number \<Rightarrow> string \<Rightarrow> gradient \<Rightarrow> gradient" where
  "addColorStop offset color (LinearGradient x0 y0 x1 y1 stops) =
     LinearGradient x0 y0 x1 y1 (stops @ [(offset, color)])"
| "addColorStop offset color (RadialGradient x0 y0 r0 x1 y1 r1 stops) =
     RadialGradient x0 y0 r0 x1 y1 r1 (stops @ [(offset, color)])"

datatype style = Color string | Gradient gradient

datatype call =
  SetFillStyle style
| SetStrokeStyle style
| SetLineWidth number
| SetFont string
| SetGlobalAlpha number
| SetShadowColor string
| SetShadowBlur number
| Save
| Restore
| FillRect number number number number
| StrokeRect number number number number
| FillText string number number
| BeginPath
| MoveTo number number
| ArcTo number number number number number
| Arc number number number number number
| ClosePath
| Fill
| GetImageData number number number number

text \<open>
  The mutable fields of \<open>ModernUIEngine\<close>. \<open>touch\<close> and \<open>activeTileIndex\<close> are
  \<open>null\<close> (\<open>None\<close>) or a value; the read-only \<open>width\<close> and \<open>height\<close> are the constants
  below.
\<close>

record engine =
  displayWidth :: number
  displayHeight :: number
  ctx :: "call list"
  touch :: "touchPoint option"
  activeTileIndex :: "int option"
  tiles :: "tile list"

definition width :: number where
  "width = Num 1024"

definition height :: number where
  "height = Num 1024"

datatype error = Error string | TypeError

section \<open>The tile grid\<close>

text \<open>
  The digits of a natural number, as a template literal prints it.
\<close>

fun decimal :: "nat \<Rightarrow> string" where
  "decimal n =
     (if n < 10 then [char_of (48 + n)]
      else decimal (n div 10) @ [char_of (48 + n mod 10)])"

declare decimal.simps [simp del]

text \<open>The local constants of \<open>createTiles\<close>.\<close>

definition columns :: nat where
  "columns = 7"

definition rows :: nat where
  "rows = 3"

definition paddingX :: number where
  "paddingX = Num 64"

definition paddingY :: number where
  "paddingY = Num 280"

definition gap :: number where
  "gap = Num 16"

definition availableWidth :: number where
  "availableWidth = width - paddingX * Num 2"

definition tileWidth :: number where
  "tileWidth = (availableWidth - gap * (Num (real columns) - Num 1)) / Num (real columns)"

definition tileHeight :: number where
  "tileHeight = Num 110"

text \<open>
  The inner loop over \<open>col\<close> and the outer loop over \<open>row\<close>; the state of both is the
  array \<open>tiles\<close> and the counter \<open>count\<close>.
\<close>

function createTiles_col :: "nat \<Rightarrow> nat \<Rightarrow> tile list \<times> nat \<Rightarrow> tile list \<times> nat" where
  "createTiles_col row col (ts, count) =
     (if col < columns then
        let x = paddingX + Num (real col) * (tileWidth + gap);
            y = paddingY + Num (real row) * (tileHeight + gap)
        in createTiles_col row (col + 1)
             (ts @ [\<lparr>tile_x = x, tile_y = y, tile_width = tileWidth, tile_height = tileHeight,
                     label = ''App '' @ decimal count,
                     badge = (if count mod 5 = 0 then Some ''NEW'' else None)\<rparr>],
              count + 1)
      else (ts, count))"
  by pat_completeness auto
termination
  by (relation "measure (\<lambda>(row, col, st). columns - col)") auto

function createTiles_row :: "nat \<Rightarrow> tile list \<times> nat \<Rightarrow> tile list \<times> nat" where
  "createTiles_row row st =
     (if row < rows then createTiles_row (row + 1) (createTiles_col row 0 st) else st)"
  by pat_completeness auto
termination
  by (relation "measure (\<lambda>(row, st). rows - row)") auto

declare createTiles_col.simps [simp del]
declare createTiles_row.simps [simp del]

definition createTiles :: "tile list" where
  "createTiles = fst (createTiles_row 0 ([], 1))"

section \<open>Construction, hit test and pointer handlers\<close>

text \<open>
  The constructor asks the host for a 2D context; the argument is what \<open>getContext\<close>
  returned (\<open>None\<close> for \<open>null\<close>).
\<close>

definition constructor :: "call list option \<Rightarrow> error + engine" where
  "constructor got =
     (case got of
        None \<Rightarrow> Inl (Error ''Canvas context unavailable'')
      | Some c \<Rightarrow>
          Inr \<lparr>displayWidth = Num 1024, displayHeight = Num 1024, ctx = c,
               touch = None, activeTileIndex = None, tiles = createTiles\<rparr>)"

definition getDimensions :: "engine \<Rightarrow> number \<times> number" where
  "getDimensions e = (width, height)"

definition setCanvasSize :: "number \<Rightarrow> number \<Rightarrow> engine \<Rightarrow> engine" where
  "setCanvasSize w h e = e\<lparr>displayWidth := w, displayHeight := h\<rparr>"

text \<open>
  \<open>Array.prototype.findIndex\<close>: the index of the first element that satisfies the
  predicate, \<open>-1\<close> when there is none.
\<close>

fun findIndex_from :: "int \<Rightarrow> ('a \<Rightarrow> bool) \<Rightarrow> 'a list \<Rightarrow> int" where
  "findIndex_from k P [] = - 1"
| "findIndex_from k P (a # as) = (if P a then k else findIndex_from (k + 1) P as)"

definition findIndex :: "('a \<Rightarrow> bool) \<Rightarrow> 'a list \<Rightarrow> int" where
  "findIndex P as = findIndex_from 0 P as"

text \<open>The callback of the hit test: the four comparisons on one tile.\<close>

definition hit :: "number \<Rightarrow> number \<Rightarrow> tile \<Rightarrow> bool" where
  "hit x y t \<longleftrightarrow>
     x \<ge> tile_x t \<and> x \<le> tile_x t + tile_width t \<and> y \<ge> tile_y t \<and> y \<le> tile_y t + tile_height t"

definition findTileIndex :: "engine \<Rightarrow> number \<Rightarrow> number \<Rightarrow> int" where
  "findTileIndex e x y = findIndex (hit x y) (tiles e)"

definition handleTouchStart :: "number \<Rightarrow> number \<Rightarrow> number \<Rightarrow> engine \<Rightarrow> engine" where
  "handleTouchStart x y p e =
     (let e = e\<lparr>touch := Some \<lparr>touch_x = x, touch_y = y, pressure = p\<rparr>\<rparr>
      in e\<lparr>activeTileIndex := Some (findTileIndex e x y)\<rparr>)"

definition handleTouchMove :: "number \<Rightarrow> number \<Rightarrow> number \<Rightarrow> engine \<Rightarrow> engine" where
  "handleTouchMove x y p e =
     (let e = e\<lparr>touch := Some \<lparr>touch_x = x, touch_y = y, pressure = p\<rparr>\<rparr>
      in e\<lparr>activeTileIndex := Some (findTileIndex e x y)\<rparr>)"

definition handleTouchEnd :: "engine \<Rightarrow> engine" where
  "handleTouchEnd e = e\<lparr>touch := None, activeTileIndex := None\<rparr>"


section \<open>Rendering\<close>

text \<open>
  \<open>calls\<close> makes the given context calls in order. \<open>forEach\<close> is
  \<open>Array.prototype.forEach\<close> with the element and its index; its state is whatever the
  callback mutates (the engine, and a local variable of the enclosing function where
  there is one).
\<close>

definition calls :: "call list \<Rightarrow> engine \<Rightarrow> engine" where
  "calls cs e = e\<lparr>ctx := ctx e @ cs\<rparr>"

fun forEach_from :: "nat \<Rightarrow> ('a \<Rightarrow> nat \<Rightarrow> 's \<Rightarrow> 's) \<Rightarrow> 'a list \<Rightarrow> 's \<Rightarrow> 's" where
  "forEach_from k f [] s = s"
| "forEach_from k f (a # as) s = forEach_from (k + 1) f as (f a k s)"

definition forEach :: "('a \<Rightarrow> nat \<Rightarrow> 's \<Rightarrow> 's) \<Rightarrow> 'a list \<Rightarrow> 's \<Rightarrow> 's" where
  "forEach f as s = forEach_from 0 f as s"

definition drawRoundedRect ::
  "number \<Rightarrow> number \<Rightarrow> number \<Rightarrow> number \<Rightarrow> number \<Rightarrow> string \<Rightarrow> engine \<Rightarrow> engine" where
  "drawRoundedRect x y w h radius fill e =
     calls [BeginPath,
            MoveTo (x + radius) y,
            ArcTo (x + w) y (x + w) (y + h) radius,
            ArcTo (x + w) (y + h) x (y + h) radius,
            ArcTo x (y + h) x y radius,
            ArcTo x y (x + w) y radius,
            ClosePath,
            SetFillStyle (Color fill),
            Fill] e"

definition drawCapsule ::
  "number \<Rightarrow> number \<Rightarrow> number \<Rightarrow> number \<Rightarrow> string \<Rightarrow> engine \<Rightarrow> engine" where
  "drawCapsule x y w h fill e =
     (let radius = h / Num 2
      in drawRoundedRect x y w h radius fill e)"

text \<open>The two \<open>for\<close> loops of \<open>drawBackground\<close>, on their counters \<open>y\<close> and \<open>x\<close>.\<close>

function drawBackground_rows :: "real \<Rightarrow> engine \<Rightarrow> engine" where
  "drawBackground_rows y e =
     (if Num y < height
      then drawBackground_rows (y + 80) (calls [FillRect (Num 0) (Num y) width (Num 1)] e)
      else e)"
  by pat_completeness auto
termination
  by (relation "measure (\<lambda>(y, e). nat \<lceil>1024 - y\<rceil>)") (auto simp: height_def, linarith)

function drawBackground_cols :: "real \<Rightarrow> engine \<Rightarrow> engine" where
  "drawBackground_cols x e =
     (if Num x < width
      then drawBackground_cols (x + 80)
             (calls [FillRect (Num x) (Num 120) (Num 1) (height - Num 200)] e)
      else e)"
  by pat_completeness auto
termination
  by (relation "measure (\<lambda>(x, e). nat \<lceil>1024 - x\<rceil>)") (auto simp: width_def, linarith)

declare drawBackground_rows.simps [simp del]
declare drawBackground_cols.simps [simp del]

definition drawBackground :: "engine \<Rightarrow> engine" where
  "drawBackground e =
     (let gradient = LinearGradient (Num 0) (Num 0) width height [];
          gradient = addColorStop (Num 0) ''#050816'' gradient;
          gradient = addColorStop (Num 0.5) ''#0f172a'' gradient;
          gradient = addColorStop (Num 1) ''#111827'' gradient;
          e = calls [SetFillStyle (Gradient gradient),
                     FillRect (Num 0) (Num 0) width height,
                     Save,
                     SetGlobalAlpha (Num 0.5),
                     SetFillStyle (Color ''#1e293b'')] e;
          e = drawBackground_rows 120 e;
          e = drawBackground_cols 64 e
      in calls [Restore] e)"

text \<open>
  The middle dot of the subtitle and the degree sign of the cooling card are the code
  units \<open>0xB7\<close> and \<open>0xB0\<close>.
\<close>

definition drawHeader :: "engine \<Rightarrow> engine" where
  "drawHeader e =
     (let e = calls [Save,
                     SetFillStyle (Color ''#0b1120''),
                     FillRect (Num 0) (Num 0) width (Num 120),
                     SetFillStyle (Color ''#f8fafc''),
                     SetFont ''bold 32px Inter, sans-serif'',
                     FillText ''PPU-AQC Unified Platform'' (Num 64) (Num 60),
                     SetFillStyle (Color ''#94a3b8''),
                     SetFont ''16px Inter, sans-serif'',
                     FillText (''Operational readiness '' @ [char_of (0xB7 :: nat)] @
                               '' 21 applications '' @ [char_of (0xB7 :: nat)] @ '' 4K mode'')
                       (Num 64) (Num 90)] e;
          capsuleX = width - Num 300;
          e = drawCapsule capsuleX (Num 38) (Num 220) (Num 44) ''#1d4ed8'' e
      in calls [SetFillStyle (Color ''#e2e8f0''),
                SetFont ''600 15px Inter, sans-serif'',
                FillText ''Systems nominal'' (capsuleX + Num 24) (Num 66),
                Restore] e)"

record card =
  title :: string
  val :: string
  subtitle :: string
  accent :: string

definition drawStatusCards :: "engine \<Rightarrow> engine" where
  "drawStatusCards e =
     (let cardWidth = Num 280;
          cardHeight = Num 110;
          startX = Num 64;
          startY = Num 140;
          gap = Num 24;
          cards =
            [\<lparr>title = ''Power'', val = ''98%'', subtitle = ''Stable output'',
              accent = ''#22c55e''\<rparr>,
             \<lparr>title = ''Cooling'', val = ''72'' @ [char_of (0xB0 :: nat)] @ ''F'',
              subtitle = ''Nominal range'', accent = ''#38bdf8''\<rparr>,
             \<lparr>title = ''Security'', val = ''Secure'', subtitle = ''All zones green'',
              accent = ''#a855f7''\<rparr>]
      in forEach (\<lambda>card index e.
           let x = startX + Num (real index) * (cardWidth + gap);
               y = startY;
               e = drawRoundedRect x y cardWidth cardHeight (Num 20) ''#0f172a'' e
           in calls [SetStrokeStyle (Color ''#1e293b''),
                     SetLineWidth (Num 2),
                     StrokeRect x y cardWidth cardHeight,
                     SetFillStyle (Color ''#94a3b8''),
                     SetFont ''14px Inter, sans-serif'',
                     FillText (title card) (x + Num 20) (y + Num 30),
                     SetFillStyle (Color ''#f8fafc''),
                     SetFont ''600 28px Inter, sans-serif'',
                     FillText (val card) (x + Num 20) (y + Num 62),
                     SetFillStyle (Color (accent card)),
                     SetFont ''12px Inter, sans-serif'',
                     FillText (subtitle card) (x + Num 20) (y + Num 88)] e)
         cards e)"

text \<open>
  The callback of \<open>drawTiles\<close>. \<open>tile.badge\<close> is tested for truthiness: \<open>undefined\<close>
  and the empty string draw no capsule.
\<close>

definition drawTile :: "tile \<Rightarrow> nat \<Rightarrow> engine \<Rightarrow> engine" where
  "drawTile t index e =
     (let isActive = (Some (int index) = activeTileIndex e);
          baseColor = (if isActive then ''#1d4ed8'' else ''#111827'');
          glowColor = (if isActive then ''rgba(59, 130, 246, 0.35)'' else ''rgba(15, 23, 42, 0.6)'');
          e = calls [Save,
                     SetShadowColor glowColor,
                     SetShadowBlur (if isActive then Num 22 else Num 8)] e;
          e = drawRoundedRect (tile_x t) (tile_y t) (tile_width t) (tile_height t) (Num 18)
                baseColor e;
          e = calls [SetShadowBlur (Num 0),
                     SetStrokeStyle (Color (if isActive then ''#93c5fd'' else ''#1f2937'')),
                     SetLineWidth (Num 2),
                     StrokeRect (tile_x t) (tile_y t) (tile_width t) (tile_height t),
                     SetFillStyle (Color ''#e2e8f0''),
                     SetFont ''600 16px Inter, sans-serif'',
                     FillText (label t) (tile_x t + Num 16) (tile_y t + Num 32),
                     SetFillStyle (Color ''#64748b''),
                     SetFont ''12px Inter, sans-serif'',
                     FillText ''Ready'' (tile_x t + Num 16) (tile_y t + Num 56)] e;
          e = (case badge t of
                 None \<Rightarrow> e
               | Some b \<Rightarrow>
                   if b = [] then e
                   else
                     let e = drawCapsule (tile_x t + tile_width t - Num 88) (tile_y t + Num 18)
                               (Num 72) (Num 26) ''#0f172a'' e
                     in calls [SetFillStyle (Color ''#38bdf8''),
                               SetFont ''600 12px Inter, sans-serif'',
                               FillText b (tile_x t + tile_width t - Num 72) (tile_y t + Num 36)] e)
      in calls [Restore] e)"

definition drawTiles :: "engine \<Rightarrow> engine" where
  "drawTiles e = forEach drawTile (tiles e) e"

text \<open>
  \<open>drawKeyboard\<close>: the outer callback mutates \<open>y\<close>, the inner one \<open>x\<close>; each is paired
  with the engine.
\<close>

definition drawKeyboard :: "engine \<Rightarrow> engine" where
  "drawKeyboard e =
     (let keyboardHeight = Num 180;
          startY = height - keyboardHeight - Num 32;
          padding = Num 64;
          e = drawRoundedRect padding startY (width - padding * Num 2) keyboardHeight (Num 24)
                ''#0b1120'' e;
          e = calls [SetStrokeStyle (Color ''#1e293b''),
                     SetLineWidth (Num 2),
                     StrokeRect padding startY (width - padding * Num 2) keyboardHeight] e;
          rows =
            [[''ESC'', ''F1'', ''F2'', ''F3'', ''F4'', ''F5'', ''F6'', ''F7'', ''F8''],
             [''TAB'', ''Q'', ''W'', ''E'', ''R'', ''T'', ''Y'', ''U'', ''I'', ''O'', ''P''],
             [''CTRL'', ''A'', ''S'', ''D'', ''F'', ''G'', ''H'', ''J'', ''K'', ''L'', ''ENTER'']];
          keyGap = Num 10;
          keyHeight = Num 38;
          y = startY + Num 20
      in snd (forEach (\<lambda>row i (y, e).
           let totalKeyWidth =
                 width - padding * Num 2 - keyGap * (Num (real (length row)) - Num 1);
               keyWidth = totalKeyWidth / Num (real (length row));
               x = padding;
               (x, e) = forEach (\<lambda>key j (x, e).
                 let e = drawRoundedRect x y keyWidth keyHeight (Num 12) ''#111827'' e;
                     e = calls [SetStrokeStyle (Color ''#1f2937''),
                                StrokeRect x y keyWidth keyHeight,
                                SetFillStyle (Color ''#94a3b8''),
                                SetFont ''12px Inter, sans-serif'',
                                FillText key (x + Num 12) (y + Num 24)] e
                 in (x + (keyWidth + keyGap), e)) row (x, e)
           in (y + (keyHeight + Num 12), e)) rows (y, e)))"

text \<open>\<open>Math.PI\<close> is the double next to \<open>\<pi>\<close>.\<close>

definition Math_PI :: number where
  "Math_PI = Num (884279719003555 / 281474976710656)"

definition drawTouchHighlight :: "engine \<Rightarrow> engine" where
  "drawTouchHighlight e =
     (case touch e of
        None \<Rightarrow> e
      | Some t \<Rightarrow>
          let x = touch_x t;
              y = touch_y t;
              e = calls [Save, SetGlobalAlpha (Num 0.4)] e;
              radial = RadialGradient x y (Num 10) x y (Num 80) [];
              radial = addColorStop (Num 0) ''#60a5fa'' radial;
              radial = addColorStop (Num 1) ''transparent'' radial
          in calls [SetFillStyle (Gradient radial),
                    BeginPath,
                    Arc x y (Num 80) (Num 0) (Math_PI * Num 2),
                    Fill,
                    Restore] e)"

definition render :: "engine \<Rightarrow> engine" where
  "render e =
     (let e = drawBackground e;
          e = drawHeader e;
          e = drawStatusCards e;
          e = drawTiles e;
          e = drawKeyboard e;
          e = drawTouchHighlight e
      in calls [GetImageData (Num 0) (Num 0) width height] e)"


section \<open>Calls on the engine\<close>

text \<open>
  One call of a public method of the engine, and a sequence of them on an engine that
  \<open>new ModernUIEngine()\<close> tried to build.
\<close>

datatype op =
  HandleTouchStart number number number
| HandleTouchMove number number number
| HandleTouchEnd
| SetCanvasSize number number
| Render

fun perform :: "op \<Rightarrow> engine \<Rightarrow> engine" where
  "perform (HandleTouchStart x y p) e = handleTouchStart x y p e"
| "perform (HandleTouchMove x y p) e = handleTouchMove x y p e"
| "perform HandleTouchEnd e = handleTouchEnd e"
| "perform (SetCanvasSize w h) e = setCanvasSize w h e"
| "perform Render e = render e"

definition session :: "call list option \<Rightarrow> op list \<Rightarrow> error + engine" where
  "session got ops =
     (case constructor got of
        Inl err \<Rightarrow> Inl err
      | Inr e \<Rightarrow> Inr (fold perform ops e))"

section \<open>The component that feeds the engine\<close>

text \<open>
  \<open>App\<close> holds two references, each \<open>null\<close> or set: the canvas, of which the handlers read
  only the bounding rectangle, and the engine. An event is a touch event with its list
  \<open>touches\<close> or a mouse event; \<open>e.touches[0]\<close> of an empty list is \<open>undefined\<close>, and
  reading \<open>clientX\<close> from it throws a \<open>TypeError\<close>. \<open>preventDefault\<close> acts on the host
  only.
\<close>

record clientPoint =
  clientX :: number
  clientY :: number

datatype uiEvent = TouchEvent "clientPoint list" | MouseEvent clientPoint

record domRect =
  rect_left :: number
  rect_top :: number
  rect_width :: number
  rect_height :: number

record app =
  canvasRef :: "domRect option"
  engineRef :: "engine option"

definition toCanvas :: "domRect \<Rightarrow> number \<times> number \<Rightarrow> clientPoint \<Rightarrow> number \<times> number" where
  "toCanvas rect dims c =
     (let scaleX = fst dims / rect_width rect;
          scaleY = snd dims / rect_height rect;
          x = (clientX c - rect_left rect) * scaleX;
          y = (clientY c - rect_top rect) * scaleY
      in (x, y))"

definition App_handleTouchStart :: "uiEvent \<Rightarrow> app \<Rightarrow> error + app" where
  "App_handleTouchStart ev a =
     (case (canvasRef a, engineRef a) of
        (Some rect, Some engine) \<Rightarrow>
          let dims = getDimensions engine
          in (case ev of
                TouchEvent [] \<Rightarrow> Inl TypeError
              | TouchEvent (t # ts) \<Rightarrow>
                  let (x, y) = toCanvas rect dims t
                  in Inr (a\<lparr>engineRef := Some (handleTouchStart x y (Num 1.0) engine)\<rparr>)
              | MouseEvent m \<Rightarrow>
                  let (x, y) = toCanvas rect dims m
                  in Inr (a\<lparr>engineRef := Some (handleTouchStart x y (Num 1.0) engine)\<rparr>))
      | _ \<Rightarrow> Inr a)"

definition App_handleTouchMove :: "uiEvent \<Rightarrow> app \<Rightarrow> app" where
  "App_handleTouchMove ev a =
     (case (canvasRef a, engineRef a) of
        (Some rect, Some engine) \<Rightarrow>
          let dims = getDimensions engine
          in (case ev of
                TouchEvent ts \<Rightarrow>
                  if length ts > 0 then
                    let (x, y) = toCanvas rect dims (ts ! 0)
                    in a\<lparr>engineRef := Some (handleTouchMove x y (Num 0.8) engine)\<rparr>
                  else a
              | MouseEvent m \<Rightarrow>
                  let (x, y) = toCanvas rect dims m
                  in a\<lparr>engineRef := Some (handleTouchMove x y (Num 0.8) engine)\<rparr>)
      | _ \<Rightarrow> a)"

definition App_handleTouchEnd :: "app \<Rightarrow> app" where
  "App_handleTouchEnd a =
     (case engineRef a of
        None \<Rightarrow> a
      | Some engine \<Rightarrow> a\<lparr>engineRef := Some (handleTouchEnd engine)\<rparr>)"

text \<open>
  The event props of the canvas element and the handler each one is bound to.
  \<open>handleTouchEnd\<close> takes no argument: the event it is called with is dropped.
\<close>

datatype eventProp =
  OnTouchStart | OnTouchMove | OnTouchEnd | OnMouseDown | OnMouseMove | OnMouseUp | OnMouseLeave

fun dispatch :: "eventProp \<Rightarrow> uiEvent \<Rightarrow> app \<Rightarrow> error + app" where
  "dispatch OnTouchStart ev a = App_handleTouchStart ev a"
| "dispatch OnTouchMove ev a = Inr (App_handleTouchMove ev a)"
| "dispatch OnTouchEnd ev a = Inr (App_handleTouchEnd a)"
| "dispatch OnMouseDown ev a = App_handleTouchStart ev a"
| "dispatch OnMouseMove ev a = Inr (App_handleTouchMove ev a)"
| "dispatch OnMouseUp ev a = Inr (App_handleTouchEnd a)"
| "dispatch OnMouseLeave ev a = Inr (App_handleTouchEnd a)"


section \<open>Definitions used in the proofs\<close>

text \<open>
  The tile that \<open>createTiles\<close> puts at index \<open>i\<close> of the array, in closed form: column
  \<open>i mod 7\<close>, row \<open>i div 7\<close>, numbered \<open>i + 1\<close>.
\<close>

definition tileAt :: "nat \<Rightarrow> tile" where
  "tileAt i =
     \<lparr>tile_x = Num (64 + real (i mod 7) * (912 / 7)),
      tile_y = Num (280 + real (i div 7) * 126),
      tile_width = Num (800 / 7),
      tile_height = Num 110,
      label = ''App '' @ decimal (i + 1),
      badge = (if (i + 1) mod 5 = 0 then Some ''NEW'' else None)\<rparr>"

text \<open>
  A tile whose four numbers are finite and within one unit of those of another tile.
\<close>

definition perturbed :: "tile \<Rightarrow> tile \<Rightarrow> bool" where
  "perturbed t u \<longleftrightarrow>
     (\<exists>x y w h x' y' w' h'.
        tile_x t = Num x \<and> tile_y t = Num y \<and> tile_width t = Num w \<and> tile_height t = Num h \<and>
        tile_x u = Num x' \<and> tile_y u = Num y' \<and> tile_width u = Num w' \<and> tile_height u = Num h' \<and>
        \<bar>x' - x\<bar> \<le> 1 \<and> \<bar>y' - y\<bar> \<le> 1 \<and> \<bar>w' - w\<bar> \<le> 1 \<and> \<bar>h' - h\<bar> \<le> 1)"

text \<open>
  An engine with an empty call log and a fixed display size: what \<open>render\<close> reads of
  an engine survives in it.
\<close>

definition canon :: "engine \<Rightarrow> engine" where
  "canon e = e\<lparr>displayWidth := Num 0, displayHeight := Num 0, ctx := []\<rparr>"

text \<open>
  A drawing function \<open>draws\<close> when it only appends calls to the log, the calls are those
  it makes on the engine with an empty log, and none of them is an \<open>arc\<close>. \<open>draws2\<close> is
  the same for a callback that also mutates a local variable.
\<close>

fun isArc :: "call \<Rightarrow> bool" where
  "isArc (Arc x y r a b) = True"
| "isArc _ = False"

definition draws :: "(engine \<Rightarrow> engine) \<Rightarrow> bool" where
  "draws f \<longleftrightarrow>
     (\<forall>e. f e = calls (ctx (f (canon e))) e \<and> list_all (\<lambda>c. \<not> isArc c) (ctx (f (canon e))))"

definition draws2 :: "('s \<times> engine \<Rightarrow> 's \<times> engine) \<Rightarrow> bool" where
  "draws2 g \<longleftrightarrow>
     (\<forall>s e. g (s, e) = (fst (g (s, canon e)), calls (ctx (snd (g (s, canon e)))) e) \<and>
            list_all (\<lambda>c. \<not> isArc c) (ctx (snd (g (s, canon e)))))"

text \<open>The first five steps of \<open>render\<close>.\<close>

definition layers :: "engine \<Rightarrow> engine" where
  "layers e = drawKeyboard (drawTiles (drawStatusCards (drawHeader (drawBackground e))))"

text \<open>
  The engine that the constructor returns on a fresh context, and an \<open>App\<close> that holds
  it together with a canvas shown at its natural size.
\<close>

definition engine0 :: engine where
  "engine0 =
     \<lparr>displayWidth = Num 1024, displayHeight = Num 1024, ctx = [],
      touch = None, activeTileIndex = None, tiles = createTiles\<rparr>"

definition app0 :: app where
  "app0 =
     \<lparr>canvasRef = Some \<lparr>rect_left = Num 0, rect_top = Num 0,
                         rect_width = Num 1024, rect_height = Num 1024\<rparr>,
      engineRef = Some engine0\<rparr>"

text \<open>
  The invariant of the tracker: \<open>activeTileIndex\<close> is \<open>null\<close> without a sample and the
  result of the hit test on the sample otherwise.
\<close>

definition consistent :: "engine \<Rightarrow> bool" where
  "consistent e \<longleftrightarrow>
     tiles e = createTiles \<and>
     (case touch e of
        None \<Rightarrow> activeTileIndex e = None
      | Some t \<Rightarrow> activeTileIndex e = Some (findTileIndex e (touch_x t) (touch_y t)))"

section \<open>The grid in closed form\<close>

lemma tileWidth_eq: "tileWidth = Num (800 / 7)"
  by (simp add: tileWidth_def availableWidth_def width_def paddingX_def gap_def columns_def)

lemma createTiles_col_step:
  assumes "col < 7"
  shows "createTiles_col row col (ts, 7 * row + col + 1) =
         createTiles_col row (col + 1) (ts @ [tileAt (7 * row + col)], 7 * row + (col + 1) + 1)"
proof -
  have m: "(7 * row + col) mod 7 = col" and d: "(7 * row + col) div 7 = row"
    using assms by simp_all
  have "real col * (800 / 7 + 16) = real col * (912 / 7)"
    by simp
  then show ?thesis
    using assms
    by (subst createTiles_col.simps)
       (simp add: columns_def tileWidth_eq paddingX_def paddingY_def gap_def tileHeight_def
          tileAt_def m d Let_def)
qed

lemma createTiles_col_eq:
  "col \<le> 7 \<Longrightarrow>
   createTiles_col row col (ts, 7 * row + col + 1) =
     (ts @ map tileAt [7 * row + col..<7 * row + 7], 7 * (row + 1) + 1)"
proof (induction "7 - col" arbitrary: col ts)
  case 0
  then have "col = 7" by simp
  then show ?case
    by (subst createTiles_col.simps) (simp add: columns_def)
next
  case (Suc k)
  then have lt: "col < 7" and k: "k = 7 - (col + 1)" and le: "col + 1 \<le> 7"
    by simp_all
  have "[7 * row + col..<7 * row + 7] = (7 * row + col) # [7 * row + (col + 1)..<7 * row + 7]"
    using lt by (simp add: upt_conv_Cons)
  then show ?case
    using createTiles_col_step [OF lt, of row ts] Suc.hyps(1) [OF k le, of "ts @ [tileAt (7 * row + col)]"]
    by simp
qed

lemma createTiles_row_eq:
  "row \<le> 3 \<Longrightarrow>
   createTiles_row row (ts, 7 * row + 1) = (ts @ map tileAt [7 * row..<21], 22)"
proof (induction "3 - row" arbitrary: row ts)
  case 0
  then have "row = 3" by simp
  then show ?case
    by (subst createTiles_row.simps) (simp add: rows_def)
next
  case (Suc k)
  then have lt: "row < 3" and k: "k = 3 - (row + 1)" and le: "row + 1 \<le> 3"
    by simp_all
  have split: "[7 * row..<21] = [7 * row..<7 * row + 7] @ [7 * (row + 1)..<21]"
  proof -
    have "7 * row + 7 + (14 - 7 * row) = 21" using lt by simp
    then show ?thesis
      using upt_add_eq_append [of "7 * row" "7 * row + 7" "14 - 7 * row"]
      by (simp add: add.commute)
  qed
  have "createTiles_row row (ts, 7 * row + 1) =
        createTiles_row (row + 1) (ts @ map tileAt [7 * row..<7 * row + 7], 7 * (row + 1) + 1)"
    using lt createTiles_col_eq [of 0 row ts]
    by (subst createTiles_row.simps) (simp add: rows_def)
  then show ?case
    using Suc.hyps(1) [OF k le, of "ts @ map tileAt [7 * row..<7 * row + 7]"] split
    by simp
qed

lemma createTiles_eq: "createTiles = map tileAt [0..<21]"
  using createTiles_row_eq [of 0 "[]"] by (simp add: createTiles_def)

section \<open>The first match of \<open>findIndex\<close>\<close>

lemma findIndex_from_none:
  "(\<forall>a\<in>set as. \<not> P a) \<Longrightarrow> findIndex_from k P as = - 1"
  by (induction as arbitrary: k) simp_all

lemma findIndex_from_first:
  "i < length as \<Longrightarrow> P (as ! i) \<Longrightarrow> (\<forall>j<i. \<not> P (as ! j)) \<Longrightarrow>
   findIndex_from k P as = k + int i"
proof (induction as arbitrary: k i)
  case Nil
  then show ?case by simp
next
  case (Cons a as)
  show ?case
  proof (cases i)
    case 0
    with Cons.prems show ?thesis by simp
  next
    case (Suc n)
    with Cons.prems have "\<not> P a" by auto
    moreover have "findIndex_from (k + 1) P as = k + 1 + int n"
    proof (rule Cons.IH)
      show "n < length as" using Cons.prems Suc by simp
      show "P (as ! n)" using Cons.prems Suc by simp
      show "\<forall>j<n. \<not> P (as ! j)" 
      proof (intro allI impI)
        fix j assume "j < n"
        then have "Suc j < i" using Suc by simp
        then have "\<not> P ((a # as) ! Suc j)" using Cons.prems by blast
        then show "\<not> P (as ! j)" by simp
      qed
    qed
    ultimately show ?thesis using Suc by simp
  qed
qed

lemma findIndex_cases:
  "(findIndex P as = - 1 \<and> (\<forall>i<length as. \<not> P (as ! i))) \<or>
   (\<exists>i<length as. findIndex P as = int i \<and> P (as ! i) \<and> (\<forall>j<i. \<not> P (as ! j)))"
proof (cases "\<exists>i<length as. P (as ! i)")
  case False
  have "\<forall>a\<in>set as. \<not> P a"
  proof
    fix a assume "a \<in> set as"
    then obtain i where "i < length as" "as ! i = a"
      unfolding in_set_conv_nth by blast
    with False show "\<not> P a" by blast
  qed
  then have "findIndex P as = - 1"
    unfolding findIndex_def by (rule findIndex_from_none)
  then show ?thesis
    using False by blast
next
  case True
  define i where "i = (LEAST i. i < length as \<and> P (as ! i))"
  from True obtain m where "m < length as \<and> P (as ! m)" by blast
  then have i: "i < length as \<and> P (as ! i)"
    unfolding i_def by (rule LeastI)
  have least: "\<forall>j<i. \<not> P (as ! j)"
  proof (intro allI impI notI)
    fix j assume "j < i" "P (as ! j)"
    then have "j < length as \<and> P (as ! j)" using i by simp
    then have "i \<le> j" unfolding i_def by (rule Least_le)
    with \<open>j < i\<close> show False by simp
  qed
  have "findIndex_from 0 P as = 0 + int i"
    using i least by (intro findIndex_from_first) simp_all
  then have "findIndex P as = int i"
    by (simp add: findIndex_def)
  then show ?thesis using i least by blast
qed

lemma findIndex_unique:
  assumes "i < length as" "P (as ! i)" "\<forall>j<length as. P (as ! j) \<longrightarrow> j = i"
  shows "findIndex P as = int i"
proof -
  have "\<forall>j<i. \<not> P (as ! j)"
  proof (intro allI impI notI)
    fix j assume "j < i" "P (as ! j)"
    then have "j < length as" using assms(1) by simp
    with assms(3) \<open>P (as ! j)\<close> have "j = i" by blast
    with \<open>j < i\<close> show False by simp
  qed
  then have "findIndex_from 0 P as = 0 + int i"
    using assms(1,2) by (intro findIndex_from_first) simp_all
  then show ?thesis by (simp add: findIndex_def)
qed

section \<open>Rectangles of the grid\<close>

lemma hit_tileAt:
  "hit x y (tileAt i) \<longleftrightarrow>
     (\<exists>a b. x = Num a \<and> y = Num b \<and>
        64 + real (i mod 7) * (912 / 7) \<le> a \<and> a \<le> 64 + real (i mod 7) * (912 / 7) + 800 / 7 \<and>
        280 + real (i div 7) * 126 \<le> b \<and> b \<le> 280 + real (i div 7) * 126 + 110)"
  by (cases x; cases y) (simp_all add: hit_def tileAt_def)

lemma col_separated:
  assumes "(c::nat) < d"
  shows "64 + real c * (912 / 7) + 800 / 7 < 64 + real d * (912 / 7)"
proof -
  have "real c + 1 \<le> real d" using assms by simp
  then have "(real c + 1) * (912 / 7) \<le> real d * (912 / 7)"
    by (intro mult_right_mono) simp_all
  then show ?thesis by (simp add: algebra_simps)
qed

lemma row_separated:
  assumes "(r::nat) < s"
  shows "280 + real r * 126 + 110 < 280 + real s * 126"
proof -
  have "real r + 1 \<le> real s" using assms by simp
  then have "(real r + 1) * 126 \<le> real s * 126"
    by (intro mult_right_mono) simp_all
  then show ?thesis by (simp add: algebra_simps)
qed

lemma hit_tileAt_same:
  assumes "hit x y (tileAt i)" "hit x y (tileAt j)"
  shows "i = j"
proof -
  obtain a b where i: "64 + real (i mod 7) * (912 / 7) \<le> a" "a \<le> 64 + real (i mod 7) * (912 / 7) + 800 / 7"
      "280 + real (i div 7) * 126 \<le> b" "b \<le> 280 + real (i div 7) * 126 + 110"
    and xy: "x = Num a" "y = Num b"
    using assms(1) unfolding hit_tileAt by blast
  have j: "64 + real (j mod 7) * (912 / 7) \<le> a" "a \<le> 64 + real (j mod 7) * (912 / 7) + 800 / 7"
      "280 + real (j div 7) * 126 \<le> b" "b \<le> 280 + real (j div 7) * 126 + 110"
    using assms(2) xy unfolding hit_tileAt by auto
  have c: "i mod 7 = j mod 7"
  proof (rule ccontr)
    assume "i mod 7 \<noteq> j mod 7"
    then consider "i mod 7 < j mod 7" | "j mod 7 < i mod 7" by linarith
    then show False
      using col_separated [of "i mod 7" "j mod 7"] col_separated [of "j mod 7" "i mod 7"] i j
      by cases linarith+
  qed
  have r: "i div 7 = j div 7"
  proof (rule ccontr)
    assume "i div 7 \<noteq> j div 7"
    then consider "i div 7 < j div 7" | "j div 7 < i div 7" by linarith
    then show False
      using row_separated [of "i div 7" "j div 7"] row_separated [of "j div 7" "i div 7"] i j
      by cases linarith+
  qed
  have "i = 7 * (i div 7) + i mod 7" "j = 7 * (j div 7) + j mod 7" by simp_all
  then show ?thesis using c r by simp
qed

lemma length_createTiles: "length createTiles = 21"
  by (simp add: createTiles_eq)

lemma nth_createTiles: "i < 21 \<Longrightarrow> createTiles ! i = tileAt i"
  by (simp add: createTiles_eq)

lemma tileAt_inside:
  assumes "i < 21"
  shows "Num 0 \<le> tile_x (tileAt i) \<and> tile_x (tileAt i) + tile_width (tileAt i) \<le> width \<and>
         Num 0 \<le> tile_y (tileAt i) \<and> tile_y (tileAt i) + tile_height (tileAt i) \<le> height"
proof -
  have "i mod 7 \<le> 6" by simp
  then have "real (i mod 7) \<le> 6" by (metis of_nat_le_iff of_nat_numeral)
  then have c: "real (i mod 7) * (912 / 7) \<le> 6 * (912 / 7)"
    by (intro mult_right_mono) simp_all
  have "i div 7 \<le> 2" using assms by simp
  then have "real (i div 7) \<le> 2" by (metis of_nat_le_iff of_nat_numeral)
  then have r: "real (i div 7) * 126 \<le> 2 * 126"
    by (intro mult_right_mono) simp_all
  have "0 \<le> real (i mod 7) * (912 / 7)" "0 \<le> real (i div 7) * 126"
    by simp_all
  with c r show ?thesis
    by (simp add: tileAt_def width_def height_def)
qed


text \<open>
  The margin of the grid: tiles that differ from the computed ones by up to one unit in
  every number are still pairwise disjoint and inside the canvas. Rounding in the
  arithmetic of the grid, which is many orders of magnitude below one unit, therefore
  cannot make two tiles meet or a tile leave the canvas.
\<close>

lemma perturbed_tileAt:
  assumes "perturbed (tileAt i) u" "hit x y u"
  shows "\<exists>a b. x = Num a \<and> y = Num b \<and>
           64 + real (i mod 7) * (912 / 7) - 1 \<le> a \<and>
           a \<le> 64 + real (i mod 7) * (912 / 7) + 800 / 7 + 2 \<and>
           280 + real (i div 7) * 126 - 1 \<le> b \<and>
           b \<le> 280 + real (i div 7) * 126 + 110 + 2"
proof -
  obtain x' y' w' h' where u: "tile_x u = Num x'" "tile_y u = Num y'" "tile_width u = Num w'"
      "tile_height u = Num h'"
    and d: "\<bar>x' - (64 + real (i mod 7) * (912 / 7))\<bar> \<le> 1" "\<bar>y' - (280 + real (i div 7) * 126)\<bar> \<le> 1"
      "\<bar>w' - 800 / 7\<bar> \<le> 1" "\<bar>h' - 110\<bar> \<le> 1"
    using assms(1) unfolding perturbed_def tileAt_def by auto
  obtain a b where xy: "x = Num a" "y = Num b"
    and h: "x' \<le> a" "a \<le> x' + w'" "y' \<le> b" "b \<le> y' + h'"
    using assms(2) u by (cases x; cases y) (simp_all add: hit_def)
  show ?thesis
    using xy h d by (intro exI [of _ a] exI [of _ b]) (simp, linarith)
qed

lemma grid_margin:
  assumes "i < 21" "j < 21" "i \<noteq> j"
    "perturbed (createTiles ! i) u" "perturbed (createTiles ! j) v"
  shows "\<not> (\<exists>x y. hit x y u \<and> hit x y v)"
proof
  assume "\<exists>x y. hit x y u \<and> hit x y v"
  then obtain x y where hu: "hit x y u" and hv: "hit x y v" by blast
  have pu: "perturbed (tileAt i) u" and pv: "perturbed (tileAt j) v"
    using assms by (simp_all add: nth_createTiles)
  obtain a b where xy: "x = Num a" "y = Num b"
    and i: "64 + real (i mod 7) * (912 / 7) - 1 \<le> a"
      "a \<le> 64 + real (i mod 7) * (912 / 7) + 800 / 7 + 2"
      "280 + real (i div 7) * 126 - 1 \<le> b" "b \<le> 280 + real (i div 7) * 126 + 110 + 2"
    using perturbed_tileAt [OF pu hu] by blast
  have j: "64 + real (j mod 7) * (912 / 7) - 1 \<le> a"
      "a \<le> 64 + real (j mod 7) * (912 / 7) + 800 / 7 + 2"
      "280 + real (j div 7) * 126 - 1 \<le> b" "b \<le> 280 + real (j div 7) * 126 + 110 + 2"
    using perturbed_tileAt [OF pv hv] xy by auto
  have c: "i mod 7 = j mod 7"
  proof (rule ccontr)
    assume "i mod 7 \<noteq> j mod 7"
    then consider "i mod 7 < j mod 7" | "j mod 7 < i mod 7" by linarith
    then show False
      using col_separated [of "i mod 7" "j mod 7"] col_separated [of "j mod 7" "i mod 7"] i j
      by cases linarith+
  qed
  have r: "i div 7 = j div 7"
  proof (rule ccontr)
    assume "i div 7 \<noteq> j div 7"
    then consider "i div 7 < j div 7" | "j div 7 < i div 7" by linarith
    then show False
      using row_separated [of "i div 7" "j div 7"] row_separated [of "j div 7" "i div 7"] i j
      by cases linarith+
  qed
  have "i = 7 * (i div 7) + i mod 7" "j = 7 * (j div 7) + j mod 7" by simp_all
  then have "i = j" using c r by simp
  with assms(3) show False by simp
qed

lemma grid_margin_inside:
  assumes "i < 21" "perturbed (createTiles ! i) u"
  shows "Num 0 \<le> tile_x u \<and> tile_x u + tile_width u \<le> width \<and>
         Num 0 \<le> tile_y u \<and> tile_y u + tile_height u \<le> height"
proof -
  obtain x' y' w' h' where u: "tile_x u = Num x'" "tile_y u = Num y'" "tile_width u = Num w'"
      "tile_height u = Num h'"
    and d: "\<bar>x' - (64 + real (i mod 7) * (912 / 7))\<bar> \<le> 1" "\<bar>y' - (280 + real (i div 7) * 126)\<bar> \<le> 1"
      "\<bar>w' - 800 / 7\<bar> \<le> 1" "\<bar>h' - 110\<bar> \<le> 1"
    using assms unfolding perturbed_def by (auto simp: nth_createTiles tileAt_def)
  have "i mod 7 \<le> 6" by simp
  then have c: "real (i mod 7) \<le> 6" by (metis of_nat_le_iff of_nat_numeral)
  have "i div 7 \<le> 2" using assms(1) by simp
  then have r: "real (i div 7) \<le> 2" by (metis of_nat_le_iff of_nat_numeral)
  have "0 \<le> real (i mod 7)" "0 \<le> real (i div 7)" by simp_all
  with c r d show ?thesis
    by (simp add: u width_def height_def) linarith
qed

section \<open>Claims on the grid\<close>

lemma decimal_5: "''App '' @ decimal 5 = ''App 5''"
  by code_simp

lemma fifth: "{i::nat. i < 21 \<and> (i + 1) mod 5 = 0} = {4, 9, 14, 19}"
proof -
  have "\<And>i::nat. (i < 21 \<and> (i + 1) mod 5 = 0) = (i = 4 \<or> i = 9 \<or> i = 14 \<or> i = 19)"
    by presburger
  then show ?thesis by auto
qed

text \<open>
  Claim C5. \<open>createTiles\<close> makes 21 tiles; the tile at index \<open>i\<close> is labelled with its
  1-based number \<open>i + 1\<close> and carries a badge exactly when that number is a multiple of
  5, in which case the badge is \<open>NEW\<close>. The badged tiles are therefore those at the
  0-based indices 4, 9, 14 and 19, that is the tiles numbered 5, 10, 15 and 20.
\<close>

theorem C5_badge_every_fifth:
  "length createTiles = 21 \<and>
   (\<forall>i<21. label (createTiles ! i) = ''App '' @ decimal (i + 1) \<and>
            badge (createTiles ! i) = (if (i + 1) mod 5 = 0 then Some ''NEW'' else None)) \<and>
   {i. i < 21 \<and> badge (createTiles ! i) \<noteq> None} = {4, 9, 14, 19}"
proof -
  have b: "\<forall>i<21. label (createTiles ! i) = ''App '' @ decimal (i + 1) \<and>
            badge (createTiles ! i) = (if (i + 1) mod 5 = 0 then Some ''NEW'' else None)"
    by (simp add: nth_createTiles tileAt_def)
  then have "{i. i < 21 \<and> badge (createTiles ! i) \<noteq> None} = {i::nat. i < 21 \<and> (i + 1) mod 5 = 0}"
    by (auto split: if_splits)
  with b show ?thesis
    using length_createTiles fifth by simp
qed

text \<open>The fifth tile carries the badge, the fourth does not.\<close>

theorem C5_badge_every_fifth_witness:
  "(4::nat) < 21 \<and> label (createTiles ! 4) = ''App 5'' \<and> badge (createTiles ! 4) = Some ''NEW'' \<and>
   (3::nat) < 21 \<and> badge (createTiles ! 3) = None"
  using C5_badge_every_fifth decimal_5 by simp

text \<open>
  Claim C4. The 21 tiles are pairwise disjoint: no point, under the inclusive comparison
  of the hit test, lies in the rectangles of two different tiles. Every rectangle lies
  inside the canvas, from 0 to \<open>width\<close> and from 0 to \<open>height\<close>.
\<close>

theorem C4_tiles_disjoint_inside:
  "length createTiles = 21 \<and>
   (\<forall>i<21. \<forall>j<21. i \<noteq> j \<longrightarrow>
      \<not> (\<exists>x y. hit x y (createTiles ! i) \<and> hit x y (createTiles ! j))) \<and>
   (\<forall>i<21. Num 0 \<le> tile_x (createTiles ! i) \<and>
            tile_x (createTiles ! i) + tile_width (createTiles ! i) \<le> width \<and>
            Num 0 \<le> tile_y (createTiles ! i) \<and>
            tile_y (createTiles ! i) + tile_height (createTiles ! i) \<le> height)"
proof (intro conjI allI impI)
  show "length createTiles = 21" by (rule length_createTiles)
next
  fix i j :: nat
  assume "i < 21" "j < 21" "i \<noteq> j"
  then show "\<not> (\<exists>x y. hit x y (createTiles ! i) \<and> hit x y (createTiles ! j))"
    using hit_tileAt_same [of _ _ i j] by (auto simp: nth_createTiles)
next
  fix i :: nat
  assume "i < 21"
  then show "Num 0 \<le> tile_x (createTiles ! i)"
    "tile_x (createTiles ! i) + tile_width (createTiles ! i) \<le> width"
    "Num 0 \<le> tile_y (createTiles ! i)"
    "tile_y (createTiles ! i) + tile_height (createTiles ! i) \<le> height"
    using tileAt_inside [of i] by (simp_all add: nth_createTiles)
qed

text \<open>The first two tiles share no point; the last tile ends inside the canvas.\<close>

theorem C4_tiles_disjoint_inside_witness:
  "(0::nat) < 21 \<and> (1::nat) < 21 \<and> (0::nat) \<noteq> 1 \<and>
   \<not> (\<exists>x y. hit x y (createTiles ! 0) \<and> hit x y (createTiles ! 1)) \<and>
   tile_x (createTiles ! 20) + tile_width (createTiles ! 20) \<le> width"
proof -
  have "\<not> (\<exists>x y. hit x y (createTiles ! 0) \<and> hit x y (createTiles ! 1))"
    using C4_tiles_disjoint_inside [THEN conjunct2, THEN conjunct1, rule_format, of 0 1]
    by simp
  moreover have "tile_x (createTiles ! 20) + tile_width (createTiles ! 20) \<le> width"
    using C4_tiles_disjoint_inside [THEN conjunct2, THEN conjunct2, rule_format, of 20]
    by simp
  ultimately show ?thesis by simp
qed

text \<open>
  Claim C3, as stated, asks for tiles about 126.86 wide and for a badge on the last tile,
  tile[20]. The tiles are narrower than 126, and the last tile, numbered 21, has no badge.
\<close>

theorem C3_startup_grid_counterexample:
  "\<not> Num 126 \<le> tile_width (createTiles ! 0) \<and> badge (createTiles ! 20) \<noteq> Some ''NEW''"
  by (simp add: nth_createTiles tileAt_def)

text \<open>
  Claim C3, amended. With 7 columns, 3 rows, padding (64, 280) and gap 16 the tiles are
  \<open>(1024 - 2 * 64 - 6 * 16) / 7 = 800 / 7\<close> wide, about 114.29, and 110 tall. tile[0]
  is at (64, 280); tile[6] is the last of row 0: it is at height 280, its right edge is
  the right padding line, and tile[7] starts the next row at (64, 406). tile[20], numbered
  21, is the last tile and has no badge; tile[19], numbered 20, has the badge \<open>NEW\<close>.
\<close>

theorem C3_startup_grid:
  "tileWidth = (Num 1024 - Num 2 * Num 64 - Num 6 * Num 16) / Num 7 \<and>
   tileWidth = Num (800 / 7) \<and> Num 114.28 < tileWidth \<and> tileWidth < Num 114.29 \<and>
   length createTiles = 21 \<and>
   map tile_width createTiles = replicate 21 tileWidth \<and>
   map tile_height createTiles = replicate 21 (Num 110) \<and>
   tile_x (createTiles ! 0) = Num 64 \<and> tile_y (createTiles ! 0) = Num 280 \<and>
   tile_y (createTiles ! 6) = Num 280 \<and>
   tile_x (createTiles ! 6) + tile_width (createTiles ! 6) = width - paddingX \<and>
   tile_x (createTiles ! 7) = Num 64 \<and> tile_y (createTiles ! 7) = Num 406 \<and>
   label (createTiles ! 20) = ''App 21'' \<and> badge (createTiles ! 20) = None \<and>
   label (createTiles ! 19) = ''App 20'' \<and> badge (createTiles ! 19) = Some ''NEW''"
proof -
  have w: "map tile_width createTiles = replicate 21 tileWidth"
    by (rule nth_equalityI) (simp_all add: createTiles_eq tileAt_def tileWidth_eq)
  have h: "map tile_height createTiles = replicate 21 (Num 110)"
    by (rule nth_equalityI) (simp_all add: createTiles_eq tileAt_def)
  have l: "''App '' @ decimal 21 = ''App 21''" "''App '' @ decimal 20 = ''App 20''"
    by code_simp+
  show ?thesis
    using w h l
    by (simp add: tileWidth_eq length_createTiles nth_createTiles tileAt_def width_def paddingX_def)
qed

section \<open>Drawing only appends to the log\<close>

lemma calls_calls: "calls b (calls a e) = calls (a @ b) e"
  by (simp add: calls_def)

lemma canon_calls: "canon (calls cs e) = canon e"
  by (simp add: canon_def calls_def)

lemma canon_canon: "canon (canon e) = canon e"
  by (simp add: canon_def)

lemma ctx_canon: "ctx (canon e) = []"
  by (simp add: canon_def)

lemma ctx_calls: "ctx (calls cs e) = ctx e @ cs"
  by (simp add: calls_def)

lemma draws_id: "draws (\<lambda>e. e)"
  by (simp add: draws_def calls_def canon_def)

lemma draws_calls: "list_all (\<lambda>c. \<not> isArc c) cs \<Longrightarrow> draws (calls cs)"
  by (simp add: draws_def calls_def canon_def)

lemma draws_seq:
  assumes f: "draws f" and g: "draws g"
  shows "draws (\<lambda>e. g (f e))"
proof -
  have "g (f e) = calls (ctx (g (f (canon e)))) e \<and>
        list_all (\<lambda>c. \<not> isArc c) (ctx (g (f (canon e))))" for e
  proof -
    define a where "a = ctx (f (canon e))"
    define b where "b = ctx (g (canon e))"
    have fe: "f e = calls a e" and fa: "list_all (\<lambda>c. \<not> isArc c) a"
      using f unfolding draws_def a_def by blast+
    have fc: "f (canon e) = calls a (canon e)"
      using f [unfolded draws_def, rule_format, of "canon e"] by (simp add: a_def canon_canon)
    have gb: "list_all (\<lambda>c. \<not> isArc c) b"
      using g unfolding draws_def b_def by blast
    have g1: "g (calls a e) = calls b (calls a e)"
      using g [unfolded draws_def, rule_format, of "calls a e"] by (simp add: b_def canon_calls)
    have g2: "g (calls a (canon e)) = calls b (calls a (canon e))"
      using g [unfolded draws_def, rule_format, of "calls a (canon e)"]
      by (simp add: b_def canon_calls canon_canon)
    show ?thesis
      using fa gb by (simp add: fe fc g1 g2 calls_calls ctx_calls ctx_canon)
  qed
  then show ?thesis unfolding draws_def by blast
qed

lemma draws_after:
  "draws g \<Longrightarrow> draws f \<Longrightarrow> draws (\<lambda>e. g (f e))"
  by (rule draws_seq)

lemma draws_eq: "(\<And>e. h e = k e) \<Longrightarrow> draws k \<Longrightarrow> draws h"
proof -
  assume "\<And>e. h e = k e"
  then have "h = k" by (rule ext)
  then show "draws k \<Longrightarrow> draws h" by simp
qed

lemma draws_forEach_from:
  assumes "\<And>a k. draws (f a k)"
  shows "draws (forEach_from k f as)"
proof (induction as arbitrary: k)
  case Nil
  have "forEach_from k f [] = (\<lambda>e. e)" by (rule ext) simp
  then show ?case by (simp add: draws_id)
next
  case (Cons a as)
  have "forEach_from k f (a # as) = (\<lambda>e. forEach_from (k + 1) f as (f a k e))"
    by (rule ext) simp
  then show ?case
    using draws_seq [OF assms [of a k] Cons.IH [of "k + 1"]] by simp
qed

lemma draws_drawRoundedRect: "draws (drawRoundedRect x y w h r fill)"
  by (simp add: draws_def drawRoundedRect_def calls_def canon_def)

lemma draws_drawCapsule: "draws (drawCapsule x y w h fill)"
  by (simp add: draws_def drawCapsule_def drawRoundedRect_def calls_def canon_def Let_def)

lemma draws_drawBackground_rows: "draws (drawBackground_rows y)"
proof (rule drawBackground_rows.induct [where P = "\<lambda>y e. draws (drawBackground_rows y)"])
  fix y :: real and e :: engine
  assume IH: "Num y < height \<Longrightarrow> draws (drawBackground_rows (y + 80))"
  show "draws (drawBackground_rows y)"
  proof (cases "Num y < height")
    case True
    have "drawBackground_rows y =
          (\<lambda>e. drawBackground_rows (y + 80) (calls [FillRect (Num 0) (Num y) width (Num 1)] e))"
      by (rule ext) (subst drawBackground_rows.simps, simp add: True)
    then show ?thesis
      using draws_seq [OF draws_calls IH [OF True], of "[FillRect (Num 0) (Num y) width (Num 1)]"]
      by simp
  next
    case False
    have "drawBackground_rows y = (\<lambda>e. e)"
      by (rule ext) (subst drawBackground_rows.simps, simp add: False)
    then show ?thesis by (simp add: draws_id)
  qed
qed

lemma draws_drawBackground_cols: "draws (drawBackground_cols x)"
proof (rule drawBackground_cols.induct [where P = "\<lambda>x e. draws (drawBackground_cols x)"])
  fix x :: real and e :: engine
  assume IH: "Num x < width \<Longrightarrow> draws (drawBackground_cols (x + 80))"
  show "draws (drawBackground_cols x)"
  proof (cases "Num x < width")
    case True
    have "drawBackground_cols x =
          (\<lambda>e. drawBackground_cols (x + 80)
                 (calls [FillRect (Num x) (Num 120) (Num 1) (height - Num 200)] e))"
      by (rule ext) (subst drawBackground_cols.simps, simp add: True)
    then show ?thesis
      using draws_seq [OF draws_calls IH [OF True],
          of "[FillRect (Num x) (Num 120) (Num 1) (height - Num 200)]"]
      by simp
  next
    case False
    have "drawBackground_cols x = (\<lambda>e. e)"
      by (rule ext) (subst drawBackground_cols.simps, simp add: False)
    then show ?thesis by (simp add: draws_id)
  qed
qed

lemma draws_drawBackground: "draws drawBackground"
  apply (rule draws_eq)
   apply (simp add: drawBackground_def Let_def)
  apply (intro draws_after [OF draws_calls] draws_after [OF draws_drawBackground_cols]
      draws_after [OF draws_drawBackground_rows] draws_id)
   apply simp_all
  done

lemma draws_drawHeader: "draws drawHeader"
  by (simp add: draws_def drawHeader_def drawCapsule_def drawRoundedRect_def calls_def
      canon_def Let_def)

lemma draws_drawStatusCards: "draws drawStatusCards"
  apply (rule draws_eq)
   apply (simp add: drawStatusCards_def Let_def forEach_def del: forEach_from.simps)
  apply (rule draws_forEach_from)
  apply (simp add: draws_def drawRoundedRect_def calls_def canon_def Let_def)
  done

lemma draws_drawTile: "draws (drawTile t k)"
  by (simp add: draws_def drawTile_def drawCapsule_def drawRoundedRect_def calls_def
      canon_def Let_def split: option.split)

lemma tiles_canon: "tiles (canon e) = tiles e"
  by (simp add: canon_def)

lemma draws_drawTiles: "draws drawTiles"
proof -
  have d: "draws (forEach_from 0 drawTile ts)" for ts
    by (intro draws_forEach_from draws_drawTile)
  show ?thesis
    unfolding draws_def
  proof (intro allI)
    fix e
    show "drawTiles e = calls (ctx (drawTiles (canon e))) e \<and>
          list_all (\<lambda>c. \<not> isArc c) (ctx (drawTiles (canon e)))"
      using d [of "tiles e", unfolded draws_def, rule_format, of e]
      by (simp add: drawTiles_def forEach_def tiles_canon)
  qed
qed

lemma draws2_forEach_from:
  assumes "\<And>a k. draws2 (f a k)"
  shows "draws2 (forEach_from k f as)"
proof (induction as arbitrary: k)
  case Nil
  show ?case by (simp add: draws2_def calls_def canon_def)
next
  case (Cons a as)
  show ?case
    unfolding draws2_def
  proof (intro allI)
    fix s e
    define s1 where "s1 = fst (f a k (s, canon e))"
    define c1 where "c1 = ctx (snd (f a k (s, canon e)))"
    define F where "F = forEach_from (Suc k) f as"
    define s2 where "s2 = fst (F (s1, canon e))"
    define c2 where "c2 = ctx (snd (F (s1, canon e)))"
    have a1: "f a k (s, e) = (s1, calls c1 e)" and n1: "list_all (\<lambda>c. \<not> isArc c) c1"
      using assms [of a k, unfolded draws2_def, rule_format, of s e] by (simp_all add: s1_def c1_def)
    have a2: "f a k (s, canon e) = (s1, calls c1 (canon e))"
      using assms [of a k, unfolded draws2_def, rule_format, of s "canon e"]
      by (simp add: s1_def c1_def canon_canon)
    have F: "draws2 F" unfolding F_def by (rule Cons.IH)
    have b1: "F (s1, calls c1 e) = (s2, calls c2 (calls c1 e))"
      and n2: "list_all (\<lambda>c. \<not> isArc c) c2"
      using F [unfolded draws2_def, rule_format, of s1 "calls c1 e"]
      by (simp_all add: s2_def c2_def canon_calls)
    have b2: "F (s1, calls c1 (canon e)) = (s2, calls c2 (calls c1 (canon e)))"
      using F [unfolded draws2_def, rule_format, of s1 "calls c1 (canon e)"]
      by (simp add: s2_def c2_def canon_calls canon_canon)
    show "forEach_from k f (a # as) (s, e) =
            (fst (forEach_from k f (a # as) (s, canon e)),
             calls (ctx (snd (forEach_from k f (a # as) (s, canon e)))) e) \<and>
          list_all (\<lambda>c. \<not> isArc c) (ctx (snd (forEach_from k f (a # as) (s, canon e))))"
      using n1 n2
      by (simp add: a1 a2 b1 b2 F_def [symmetric] calls_calls ctx_calls ctx_canon)
  qed
qed

lemma draws2_row:
  assumes "\<And>y. draws2 (G y)"
  shows "draws2 (\<lambda>(y, e). case G y (p, e) of (x, e') \<Rightarrow> (F y, e'))"
  unfolding draws2_def
proof (intro allI)
  fix s e
  define x where "x = fst (G s (p, canon e))"
  define c where "c = ctx (snd (G s (p, canon e)))"
  have 1: "G s (p, e) = (x, calls c e)" and 2: "list_all (\<lambda>c. \<not> isArc c) c"
    using assms [of s, unfolded draws2_def, rule_format, of p e] by (simp_all add: x_def c_def)
  have 3: "G s (p, canon e) = (x, calls c (canon e))"
    using assms [of s, unfolded draws2_def, rule_format, of p "canon e"]
    by (simp add: x_def c_def canon_canon)
  show "(case (s, e) of (y, e) \<Rightarrow> case G y (p, e) of (x, e') \<Rightarrow> (F y, e')) =
         (fst (case (s, canon e) of (y, e) \<Rightarrow> case G y (p, e) of (x, e') \<Rightarrow> (F y, e')),
          calls (ctx (snd (case (s, canon e) of (y, e) \<Rightarrow> case G y (p, e) of (x, e') \<Rightarrow> (F y, e')))) e) \<and>
        list_all (\<lambda>c. \<not> isArc c)
          (ctx (snd (case (s, canon e) of (y, e) \<Rightarrow> case G y (p, e) of (x, e') \<Rightarrow> (F y, e'))))"
    using 2 by (simp add: 1 3 ctx_calls ctx_canon)
qed

lemma draws_snd_after:
  assumes "draws2 H" "draws f"
  shows "draws (\<lambda>e. snd (H (s, f e)))"
proof -
  have "draws (\<lambda>e. snd (H (s, e)))"
    unfolding draws_def
  proof (intro allI)
    fix e
    show "snd (H (s, e)) = calls (ctx (snd (H (s, canon e)))) e \<and>
          list_all (\<lambda>c. \<not> isArc c) (ctx (snd (H (s, canon e))))"
      using assms(1) [unfolded draws2_def, rule_format, of s e]
      by (metis snd_conv)
  qed
  from draws_seq [OF assms(2) this] show ?thesis .
qed

lemma draws_drawKeyboard: "draws drawKeyboard"
  apply (rule draws_eq)
   apply (simp add: drawKeyboard_def Let_def forEach_def del: forEach_from.simps)
  apply (rule draws_snd_after)
   apply (rule draws2_forEach_from)
   apply (rule draws2_row)
   apply (rule draws2_forEach_from)
   apply (simp add: draws2_def drawRoundedRect_def calls_def canon_def Let_def)
  apply (intro draws_after [OF draws_calls] draws_after [OF draws_drawRoundedRect] draws_id)
  apply simp
  done

lemma draws_layers: "draws layers"
proof -
  have "layers = (\<lambda>e. drawKeyboard (drawTiles (drawStatusCards (drawHeader (drawBackground e)))))"
    by (rule ext) (simp add: layers_def)
  then show ?thesis
    using draws_seq [OF draws_seq [OF draws_seq [OF draws_seq [OF draws_drawBackground
      draws_drawHeader] draws_drawStatusCards] draws_drawTiles] draws_drawKeyboard]
    by simp
qed

section \<open>Claims on rendering\<close>


lemma drawTouchHighlight_calls:
  "drawTouchHighlight e = calls (ctx (drawTouchHighlight (canon e))) e"
  by (simp add: drawTouchHighlight_def calls_def canon_def Let_def split: option.split)



lemma render_calls:
  "render e =
     calls (ctx (layers (canon e)) @ ctx (drawTouchHighlight (canon e)) @
            [GetImageData (Num 0) (Num 0) width height]) e"
proof -
  define B where "B = ctx (layers (canon e))"
  have l: "layers e = calls B e"
    using draws_layers unfolding draws_def B_def by blast
  have "drawTouchHighlight (calls B e) =
        calls (ctx (drawTouchHighlight (canon e))) (calls B e)"
    using drawTouchHighlight_calls [of "calls B e"] by (simp add: canon_calls)
  then have "render e =
      calls [GetImageData (Num 0) (Num 0) width height]
        (calls (ctx (drawTouchHighlight (canon e))) (calls B e))"
    using l by (simp add: render_def layers_def Let_def)
  then show ?thesis
    by (simp add: calls_calls B_def)
qed






text \<open>
  Claim C10. \<open>render\<close> leaves \<open>touch\<close>, \<open>activeTileIndex\<close>, the tiles and the display
  size as they were; it only appends calls to the log of the context.
\<close>

theorem C10_render_frame:
  "touch (render e) = touch e \<and>
   activeTileIndex (render e) = activeTileIndex e \<and>
   tiles (render e) = tiles e \<and>
   displayWidth (render e) = displayWidth e \<and>
   displayHeight (render e) = displayHeight e \<and>
   (\<exists>cs. render e = e\<lparr>ctx := ctx e @ cs\<rparr>)"
proof -
  obtain cs where "render e = calls cs e"
    using render_calls by blast
  then show ?thesis
    by (auto simp: calls_def)
qed

section \<open>Claims on the hit test and the tracker\<close>

lemma constructor_engine0: "constructor (Some []) = Inr engine0"
  by (simp add: constructor_def engine0_def)


lemma findTileIndex_grid:
  assumes "tiles e = createTiles" "i < 21" "hit x y (createTiles ! i)"
  shows "findTileIndex e x y = int i"
  unfolding findTileIndex_def
proof (rule findIndex_unique)
  show "i < length (tiles e)" using assms by (simp add: length_createTiles)
  show "hit x y (tiles e ! i)" using assms by simp
  show "\<forall>j<length (tiles e). hit x y (tiles e ! j) \<longrightarrow> j = i"
  proof (intro allI impI)
    fix j assume "j < length (tiles e)" "hit x y (tiles e ! j)"
    then have "j < 21" "hit x y (tileAt j)"
      using assms(1) by (simp_all add: length_createTiles nth_createTiles)
    moreover have "hit x y (tileAt i)"
      using assms(2,3) by (simp add: nth_createTiles)
    ultimately show "j = i" using hit_tileAt_same by blast
  qed
qed

lemma findTileIndex_cases:
  "(findTileIndex e x y = - 1 \<and> (\<forall>i<length (tiles e). \<not> hit x y (tiles e ! i))) \<or>
   (\<exists>i<length (tiles e). findTileIndex e x y = int i \<and> hit x y (tiles e ! i) \<and>
      (\<forall>j<i. \<not> hit x y (tiles e ! j)))"
  unfolding findTileIndex_def by (rule findIndex_cases)





text \<open>
  Claim C6. From any state \<open>handleTouchEnd\<close> sets both \<open>touch\<close> and \<open>activeTileIndex\<close>
  to \<open>null\<close> and changes nothing else; what a pointer down or move stored before it is
  gone.
\<close>

theorem C6_pointer_up_clears:
  "touch (handleTouchEnd e) = None \<and>
   activeTileIndex (handleTouchEnd e) = None \<and>
   handleTouchEnd e = e\<lparr>touch := None, activeTileIndex := None\<rparr> \<and>
   handleTouchEnd (handleTouchStart x y p e) = handleTouchEnd e \<and>
   handleTouchEnd (handleTouchMove x y p e) = handleTouchEnd e"
  by (simp add: handleTouchEnd_def handleTouchStart_def handleTouchMove_def Let_def)


lemma findTileIndex_fields:
  "findTileIndex (e\<lparr>touch := t\<rparr>) x y = findTileIndex e x y"
  "findTileIndex (e\<lparr>activeTileIndex := a\<rparr>) x y = findTileIndex e x y"
  "findTileIndex (e\<lparr>displayWidth := w\<rparr>) x y = findTileIndex e x y"
  "findTileIndex (e\<lparr>displayHeight := h\<rparr>) x y = findTileIndex e x y"
  "findTileIndex (calls cs e) x y = findTileIndex e x y"
  by (simp_all add: findTileIndex_def calls_def)

lemma consistent_perform: "consistent e \<Longrightarrow> consistent (perform op e)"
proof (cases op)
  case Render
  obtain cs where "render e = calls cs e"
    using render_calls by blast
  then show "consistent e \<Longrightarrow> consistent (perform op e)"
    using Render by (simp add: consistent_def findTileIndex_def calls_def split: option.splits)
qed (simp_all add: consistent_def handleTouchStart_def handleTouchMove_def handleTouchEnd_def
      setCanvasSize_def findTileIndex_def Let_def split: option.splits)

lemma consistent_fold: "consistent e \<Longrightarrow> consistent (fold perform ops e)"
  by (induction ops arbitrary: e) (simp_all add: consistent_perform)

lemma consistent_session:
  assumes "session (Some c) ops = Inr e"
  shows "consistent e"
proof -
  define s where "s = \<lparr>displayWidth = Num 1024, displayHeight = Num 1024, ctx = c,
               touch = None, activeTileIndex = None, tiles = createTiles\<rparr>"
  have "consistent s" by (simp add: consistent_def s_def)
  moreover have "e = fold perform ops s"
    using assms by (simp add: session_def constructor_def s_def)
  ultimately show ?thesis by (simp add: consistent_fold)
qed

lemma strictly_inside_hit:
  assumes "i < 21"
    "tile_x (createTiles ! i) < x" "x < tile_x (createTiles ! i) + tile_width (createTiles ! i)"
    "tile_y (createTiles ! i) < y" "y < tile_y (createTiles ! i) + tile_height (createTiles ! i)"
  shows "hit x y (createTiles ! i)"
  using assms by (cases x; cases y) (simp_all add: nth_createTiles tileAt_def hit_def)

lemma miss_findTileIndex:
  assumes "tiles e = createTiles" "\<forall>i<21. \<not> hit x y (createTiles ! i)"
  shows "findTileIndex e x y = - 1"
  using findTileIndex_cases [of e x y] assms by (auto simp: length_createTiles)

text \<open>
  Claim C2. After any sequence of calls on an engine that was built (pointer down, move
  and up, and also \<open>setCanvasSize\<close> and \<open>render\<close>), \<open>activeTileIndex\<close> is \<open>null\<close> when
  there is no sample, and otherwise it is the result of the hit test on the sample: the
  index of the first tile that contains it, or \<open>-1\<close> when no tile does. In both empty
  cases the stored value is the index of no tile. A pointer down strictly inside the
  rectangle of tile 3 sets \<open>activeTileIndex\<close> to 3, and a move to a point in no tile sets
  it to \<open>-1\<close> and keeps the new sample.
\<close>

theorem C2_active_tile_consistent:
  "(session (Some c) ops = Inr e \<longrightarrow>
      tiles e = createTiles \<and>
      (touch e = None \<longrightarrow> activeTileIndex e = None) \<and>
      (\<forall>t. touch e = Some t \<longrightarrow>
         activeTileIndex e = Some (findTileIndex e (touch_x t) (touch_y t)) \<and>
         (\<forall>i<21. hit (touch_x t) (touch_y t) (tiles e ! i) \<and>
                  (\<forall>j<i. \<not> hit (touch_x t) (touch_y t) (tiles e ! j)) \<longrightarrow>
                  activeTileIndex e = Some (int i)) \<and>
         ((\<forall>i<21. \<not> hit (touch_x t) (touch_y t) (tiles e ! i)) \<longrightarrow>
            activeTileIndex e = Some (- 1))) \<and>
      (touch e = None \<or>
       (\<exists>t. touch e = Some t \<and> (\<forall>i<21. \<not> hit (touch_x t) (touch_y t) (tiles e ! i))) \<longrightarrow>
         (\<forall>k::nat. activeTileIndex e \<noteq> Some (int k)))) \<and>
   (tiles e0 = createTiles \<and>
    tile_x (createTiles ! 3) < x \<and> x < tile_x (createTiles ! 3) + tile_width (createTiles ! 3) \<and>
    tile_y (createTiles ! 3) < y \<and> y < tile_y (createTiles ! 3) + tile_height (createTiles ! 3) \<and>
    (\<forall>i<21. \<not> hit x' y' (createTiles ! i)) \<longrightarrow>
      activeTileIndex (handleTouchStart x y p e0) = Some 3 \<and>
      activeTileIndex (handleTouchMove x' y' p' (handleTouchStart x y p e0)) = Some (- 1) \<and>
      touch (handleTouchMove x' y' p' (handleTouchStart x y p e0)) =
        Some \<lparr>touch_x = x', touch_y = y', pressure = p'\<rparr>)"
proof (intro conjI impI)
  assume s: "session (Some c) ops = Inr e"
  then have con: "consistent e" by (rule consistent_session)
  then have tl: "tiles e = createTiles" by (simp add: consistent_def)
  show "tiles e = createTiles" by (rule tl)
  show "activeTileIndex e = None" if "touch e = None"
    using con that by (simp add: consistent_def)
  have some: "activeTileIndex e = Some (findTileIndex e (touch_x t) (touch_y t))"
    if "touch e = Some t" for t
    using con that by (simp add: consistent_def)
  show "\<forall>t. touch e = Some t \<longrightarrow>
         activeTileIndex e = Some (findTileIndex e (touch_x t) (touch_y t)) \<and>
         (\<forall>i<21. hit (touch_x t) (touch_y t) (tiles e ! i) \<and>
                  (\<forall>j<i. \<not> hit (touch_x t) (touch_y t) (tiles e ! j)) \<longrightarrow>
                  activeTileIndex e = Some (int i)) \<and>
         ((\<forall>i<21. \<not> hit (touch_x t) (touch_y t) (tiles e ! i)) \<longrightarrow>
            activeTileIndex e = Some (- 1))"
  proof (intro allI impI conjI)
    fix t assume t: "touch e = Some t"
    show "activeTileIndex e = Some (findTileIndex e (touch_x t) (touch_y t))"
      using some [OF t] .
    show "activeTileIndex e = Some (- 1)"
      if "\<forall>i<21. \<not> hit (touch_x t) (touch_y t) (tiles e ! i)"
      using that some [OF t] miss_findTileIndex [OF tl, of "touch_x t" "touch_y t"] tl by simp
  next
    fix t i
    assume t: "touch e = Some t" and "i < 21"
      and "hit (touch_x t) (touch_y t) (tiles e ! i) \<and>
           (\<forall>j<i. \<not> hit (touch_x t) (touch_y t) (tiles e ! j))"
    then show "activeTileIndex e = Some (int i)"
      using some [OF t] findTileIndex_grid [OF tl, of i "touch_x t" "touch_y t"] tl by simp
  qed
  show "\<forall>k::nat. activeTileIndex e \<noteq> Some (int k)"
    if "touch e = None \<or>
        (\<exists>t. touch e = Some t \<and> (\<forall>i<21. \<not> hit (touch_x t) (touch_y t) (tiles e ! i)))"
    using that
  proof
    assume "touch e = None"
    then show ?thesis using con by (simp add: consistent_def)
  next
    assume "\<exists>t. touch e = Some t \<and> (\<forall>i<21. \<not> hit (touch_x t) (touch_y t) (tiles e ! i))"
    then obtain t where t: "touch e = Some t"
      and m: "\<forall>i<21. \<not> hit (touch_x t) (touch_y t) (createTiles ! i)"
      using tl by auto
    have "activeTileIndex e = Some (- 1)"
      using some [OF t] miss_findTileIndex [OF tl m] by simp
    then show ?thesis by simp
  qed
next
  assume a: "tiles e0 = createTiles \<and>
    tile_x (createTiles ! 3) < x \<and> x < tile_x (createTiles ! 3) + tile_width (createTiles ! 3) \<and>
    tile_y (createTiles ! 3) < y \<and> y < tile_y (createTiles ! 3) + tile_height (createTiles ! 3) \<and>
    (\<forall>i<21. \<not> hit x' y' (createTiles ! i))"
  then have h: "hit x y (createTiles ! 3)"
    by (intro strictly_inside_hit) simp_all
  have tl: "tiles e0 = createTiles" using a by simp
  have "findTileIndex e0 x y = 3"
    using findTileIndex_grid [OF tl _ h] by simp
  then show "activeTileIndex (handleTouchStart x y p e0) = Some 3"
    by (simp add: handleTouchStart_def findTileIndex_fields Let_def)
  have "findTileIndex e0 x' y' = - 1"
    using miss_findTileIndex [OF tl] a by blast
  then show "activeTileIndex (handleTouchMove x' y' p' (handleTouchStart x y p e0)) = Some (- 1)"
    by (simp add: handleTouchStart_def handleTouchMove_def findTileIndex_fields Let_def)
  show "touch (handleTouchMove x' y' p' (handleTouchStart x y p e0)) =
        Some \<lparr>touch_x = x', touch_y = y', pressure = p'\<rparr>"
    by (simp add: handleTouchStart_def handleTouchMove_def Let_def)
qed

lemma miss_example: "\<forall>i<21. \<not> hit (Num 10) (Num 10) (createTiles ! i)"
proof (intro allI impI notI)
  fix i :: nat
  assume "i < 21" "hit (Num 10) (Num 10) (createTiles ! i)"
  then have "280 + real (i div 7) * 126 \<le> 10"
    by (simp add: nth_createTiles hit_tileAt)
  moreover have "0 \<le> real (i div 7) * 126" by simp
  ultimately show False by linarith
qed

text \<open>
  A pointer down at (500, 300), inside tile 3, and a move to (10, 10), above the grid.
\<close>

lemma inside_example:
  "tile_x (createTiles ! 3) < Num 500 \<and>
   Num 500 < tile_x (createTiles ! 3) + tile_width (createTiles ! 3) \<and>
   tile_y (createTiles ! 3) < Num 300 \<and>
   Num 300 < tile_y (createTiles ! 3) + tile_height (createTiles ! 3)"
  by (simp add: nth_createTiles tileAt_def)

theorem C2_active_tile_consistent_witness:
  "session (Some [])
     [HandleTouchStart (Num 500) (Num 300) (Num 1), HandleTouchMove (Num 10) (Num 10) (Num 0.8)] =
   Inr (handleTouchMove (Num 10) (Num 10) (Num 0.8)
         (handleTouchStart (Num 500) (Num 300) (Num 1) engine0)) \<and>
   tiles (handleTouchMove (Num 10) (Num 10) (Num 0.8)
           (handleTouchStart (Num 500) (Num 300) (Num 1) engine0)) = createTiles \<and>
   tiles engine0 = createTiles \<and>
   tile_x (createTiles ! 3) < Num 500 \<and>
   Num 500 < tile_x (createTiles ! 3) + tile_width (createTiles ! 3) \<and>
   tile_y (createTiles ! 3) < Num 300 \<and>
   Num 300 < tile_y (createTiles ! 3) + tile_height (createTiles ! 3) \<and>
   \<not> (\<exists>i<21. hit (Num 10) (Num 10) (createTiles ! i)) \<and>
   activeTileIndex (handleTouchStart (Num 500) (Num 300) (Num 1) engine0) = Some 3 \<and>
   activeTileIndex (handleTouchMove (Num 10) (Num 10) (Num 0.8)
                     (handleTouchStart (Num 500) (Num 300) (Num 1) engine0)) = Some (- 1) \<and>
   touch (handleTouchMove (Num 10) (Num 10) (Num 0.8)
           (handleTouchStart (Num 500) (Num 300) (Num 1) engine0)) =
     Some \<lparr>touch_x = Num 10, touch_y = Num 10, pressure = Num 0.8\<rparr>"
proof -
  define e where "e = handleTouchMove (Num 10) (Num 10) (Num 0.8)
         (handleTouchStart (Num 500) (Num 300) (Num 1) engine0)"
  note c2 = C2_active_tile_consistent [of "[]"
      "[HandleTouchStart (Num 500) (Num 300) (Num 1), HandleTouchMove (Num 10) (Num 10) (Num 0.8)]"
      e engine0 "Num 500" "Num 300" "Num 10" "Num 10" "Num 1" "Num 0.8"]
  have s: "session (Some [])
     [HandleTouchStart (Num 500) (Num 300) (Num 1), HandleTouchMove (Num 10) (Num 10) (Num 0.8)] =
     Inr e"
    by (simp add: session_def constructor_engine0 e_def)
  have 1: "tiles e = createTiles"
    using c2 [THEN conjunct1, THEN mp, OF s] by blast
  have t: "tiles engine0 = createTiles"
    by (simp add: engine0_def)
  have m: "\<not> (\<exists>i<21. hit (Num 10) (Num 10) (createTiles ! i))"
    using miss_example by blast
  have 2: "activeTileIndex (handleTouchStart (Num 500) (Num 300) (Num 1) engine0) = Some 3 \<and>
      activeTileIndex e = Some (- 1) \<and>
      touch e = Some \<lparr>touch_x = Num 10, touch_y = Num 10, pressure = Num 0.8\<rparr>"
    using c2 [THEN conjunct2] t inside_example miss_example unfolding e_def by simp
  show ?thesis
    using s 1 2 t m inside_example unfolding e_def by simp
qed

text \<open>
  The handlers of the component fail in one case only: a handler for the start of a
  touch that gets a touch event listing no touch reads \<open>clientX\<close> of \<open>undefined\<close>. A
  browser lists the new touch in every \<open>touchstart\<close> event, and hands mouse events to
  \<open>onMouseDown\<close>.
\<close>

lemma App_handleTouchStart_fails:
  "App_handleTouchStart ev a = Inl err \<longleftrightarrow>
     err = TypeError \<and> ev = TouchEvent [] \<and> canvasRef a \<noteq> None \<and> engineRef a \<noteq> None"
  by (auto simp: App_handleTouchStart_def Let_def split_def
      split: option.splits uiEvent.splits list.splits)

lemma dispatch_fails:
  "dispatch pr ev a = Inl err \<longleftrightarrow>
     err = TypeError \<and> (pr = OnTouchStart \<or> pr = OnMouseDown) \<and> ev = TouchEvent [] \<and>
     canvasRef a \<noteq> None \<and> engineRef a \<noteq> None"
  by (cases pr) (simp_all add: App_handleTouchStart_fails)

text \<open>
  Claim C7, as stated, has a release of one finger out of several ignored. Two fingers go
  down, then one is lifted: the \<open>touchend\<close> event still lists the other finger in
  \<open>touches\<close>, and the handler bound to \<open>onTouchEnd\<close> clears the tracker all the same.
  A later move of the finger that stayed down is not ignored either: it stores a new
  sample.
\<close>

theorem C7_zero_touch_move_counterexample:
  "dispatch OnTouchStart
     (TouchEvent [\<lparr>clientX = Num 500, clientY = Num 300\<rparr>, \<lparr>clientX = Num 600, clientY = Num 300\<rparr>])
     app0 =
   Inr (app0\<lparr>engineRef := Some (handleTouchStart (Num 500) (Num 300) (Num 1) engine0)\<rparr>) \<and>
   touch (handleTouchStart (Num 500) (Num 300) (Num 1) engine0) =
     Some \<lparr>touch_x = Num 500, touch_y = Num 300, pressure = Num 1\<rparr> \<and>
   dispatch OnTouchEnd (TouchEvent [\<lparr>clientX = Num 600, clientY = Num 300\<rparr>])
     (app0\<lparr>engineRef := Some (handleTouchStart (Num 500) (Num 300) (Num 1) engine0)\<rparr>) =
   Inr (app0\<lparr>engineRef :=
          Some (handleTouchEnd (handleTouchStart (Num 500) (Num 300) (Num 1) engine0))\<rparr>) \<and>
   touch (handleTouchEnd (handleTouchStart (Num 500) (Num 300) (Num 1) engine0)) = None \<and>
   activeTileIndex (handleTouchEnd (handleTouchStart (Num 500) (Num 300) (Num 1) engine0)) = None \<and>
   dispatch OnTouchMove (TouchEvent [\<lparr>clientX = Num 600, clientY = Num 300\<rparr>])
     (app0\<lparr>engineRef := Some (handleTouchStart (Num 500) (Num 300) (Num 1) engine0)\<rparr>) =
   Inr (app0\<lparr>engineRef :=
          Some (handleTouchMove (Num 600) (Num 300) (Num 0.8)
                 (handleTouchStart (Num 500) (Num 300) (Num 1) engine0))\<rparr>) \<and>
   touch (handleTouchMove (Num 600) (Num 300) (Num 0.8)
           (handleTouchStart (Num 500) (Num 300) (Num 1) engine0)) =
     Some \<lparr>touch_x = Num 600, touch_y = Num 300, pressure = Num 0.8\<rparr>"
  by (simp add: App_handleTouchStart_def App_handleTouchEnd_def App_handleTouchMove_def app0_def
      toCanvas_def getDimensions_def width_def height_def handleTouchStart_def
      handleTouchMove_def handleTouchEnd_def Let_def)

lemma dispatch_clears:
  assumes "dispatch pr ev a = Inr a'" "engineRef a = Some e" "touch e \<noteq> None"
    "engineRef a' = Some e'" "touch e' = None"
  shows "pr = OnTouchEnd \<or> pr = OnMouseUp \<or> pr = OnMouseLeave"
proof -
  have start: "App_handleTouchStart ev a \<noteq> Inr a'"
  proof
    assume "App_handleTouchStart ev a = Inr a'"
    then have "touch e' \<noteq> None"
      using assms(2,3,4)
      by (auto simp: App_handleTouchStart_def handleTouchStart_def Let_def split_def
          split: option.splits uiEvent.splits list.splits)
    with assms(5) show False by simp
  qed
  have move: "App_handleTouchMove ev a \<noteq> a'"
  proof
    assume "App_handleTouchMove ev a = a'"
    then have "touch e' \<noteq> None"
      using assms(2,3,4)
      by (auto simp: App_handleTouchMove_def handleTouchMove_def Let_def split_def
          split: option.splits uiEvent.splits if_splits)
    with assms(5) show False by simp
  qed
  show ?thesis
    using assms(1) start move by (cases pr) simp_all
qed

text \<open>
  Claim C7, amended. A touch-move event with an empty \<open>touches\<close> list leaves the whole
  state as it is, unlike a pointer up on a tracking engine. The end and leave events
  (\<open>touchend\<close>, \<open>mouseup\<close>, \<open>mouseleave\<close>) clear the tracker whatever the event
  carries, so also when other fingers are still down, and no other event takes the
  tracker from a sample to none.
\<close>

theorem C7_zero_touch_move:
  "dispatch OnTouchMove (TouchEvent []) a = Inr a \<and>
   (\<forall>e. engineRef a = Some e \<longrightarrow>
      dispatch OnTouchEnd ev a = Inr (a\<lparr>engineRef := Some (handleTouchEnd e)\<rparr>) \<and>
      dispatch OnMouseUp ev a = Inr (a\<lparr>engineRef := Some (handleTouchEnd e)\<rparr>) \<and>
      dispatch OnMouseLeave ev a = Inr (a\<lparr>engineRef := Some (handleTouchEnd e)\<rparr>) \<and>
      (touch e \<noteq> None \<longrightarrow> dispatch OnTouchMove (TouchEvent []) a \<noteq> dispatch OnTouchEnd ev a)) \<and>
   (\<forall>e e'. dispatch pr ev a = Inr a' \<and> engineRef a = Some e \<and> touch e \<noteq> None \<and>
      engineRef a' = Some e' \<and> touch e' = None \<longrightarrow>
      pr = OnTouchEnd \<or> pr = OnMouseUp \<or> pr = OnMouseLeave)"
proof (intro conjI allI impI)
  show "dispatch OnTouchMove (TouchEvent []) a = Inr a"
    by (simp add: App_handleTouchMove_def split: option.splits)
next
  fix e assume e: "engineRef a = Some e"
  then show "dispatch OnTouchEnd ev a = Inr (a\<lparr>engineRef := Some (handleTouchEnd e)\<rparr>)"
    "dispatch OnMouseUp ev a = Inr (a\<lparr>engineRef := Some (handleTouchEnd e)\<rparr>)"
    "dispatch OnMouseLeave ev a = Inr (a\<lparr>engineRef := Some (handleTouchEnd e)\<rparr>)"
    by (simp_all add: App_handleTouchEnd_def)
  assume t: "touch e \<noteq> None"
  have "a \<noteq> a\<lparr>engineRef := Some (handleTouchEnd e)\<rparr>"
  proof
    assume "a = a\<lparr>engineRef := Some (handleTouchEnd e)\<rparr>"
    from arg_cong [OF this, of engineRef] have "engineRef a = Some (handleTouchEnd e)"
      by simp
    with e have "e = handleTouchEnd e" by simp
    from arg_cong [OF this, of touch] have "touch e = None"
      by (simp add: handleTouchEnd_def)
    with t show False by simp
  qed
  then show "dispatch OnTouchMove (TouchEvent []) a \<noteq> dispatch OnTouchEnd ev a"
    using e by (simp add: App_handleTouchMove_def App_handleTouchEnd_def split: option.splits)
next
  fix e e'
  assume "dispatch pr ev a = Inr a' \<and> engineRef a = Some e \<and> touch e \<noteq> None \<and>
      engineRef a' = Some e' \<and> touch e' = None"
  then show "pr = OnTouchEnd \<or> pr = OnMouseUp \<or> pr = OnMouseLeave"
    using dispatch_clears by blast
qed

text \<open>
  On a tracking engine an empty touch move changes nothing, and the mouse leaving the
  canvas clears the tracker.
\<close>

theorem C7_zero_touch_move_witness:
  "dispatch OnTouchMove (TouchEvent [])
     (app0\<lparr>engineRef := Some (handleTouchStart (Num 500) (Num 300) (Num 1) engine0)\<rparr>) =
   Inr (app0\<lparr>engineRef := Some (handleTouchStart (Num 500) (Num 300) (Num 1) engine0)\<rparr>) \<and>
   engineRef (app0\<lparr>engineRef := Some (handleTouchStart (Num 500) (Num 300) (Num 1) engine0)\<rparr>) =
     Some (handleTouchStart (Num 500) (Num 300) (Num 1) engine0) \<and>
   touch (handleTouchStart (Num 500) (Num 300) (Num 1) engine0) \<noteq> None \<and>
   dispatch OnMouseLeave (MouseEvent \<lparr>clientX = Num 2000, clientY = Num 5\<rparr>)
     (app0\<lparr>engineRef := Some (handleTouchStart (Num 500) (Num 300) (Num 1) engine0)\<rparr>) =
   Inr (app0\<lparr>engineRef :=
          Some (handleTouchEnd (handleTouchStart (Num 500) (Num 300) (Num 1) engine0))\<rparr>) \<and>
   touch (handleTouchEnd (handleTouchStart (Num 500) (Num 300) (Num 1) engine0)) = None \<and>
   dispatch OnTouchMove (TouchEvent [])
     (app0\<lparr>engineRef := Some (handleTouchStart (Num 500) (Num 300) (Num 1) engine0)\<rparr>) \<noteq>
   dispatch OnTouchEnd (MouseEvent \<lparr>clientX = Num 2000, clientY = Num 5\<rparr>)
     (app0\<lparr>engineRef := Some (handleTouchStart (Num 500) (Num 300) (Num 1) engine0)\<rparr>) \<and>
   (OnMouseLeave = OnTouchEnd \<or> OnMouseLeave = OnMouseUp \<or> OnMouseLeave = OnMouseLeave)"
proof -
  define e where "e = handleTouchStart (Num 500) (Num 300) (Num 1) engine0"
  define a where "a = app0\<lparr>engineRef := Some e\<rparr>"
  define ev where "ev = MouseEvent \<lparr>clientX = Num 2000, clientY = Num 5\<rparr>"
  note c7 = C7_zero_touch_move [of a ev OnMouseLeave "a\<lparr>engineRef := Some (handleTouchEnd e)\<rparr>"]
  have er: "engineRef a = Some e" by (simp add: a_def)
  have t: "touch e \<noteq> None" by (simp add: e_def handleTouchStart_def Let_def)
  have t': "touch (handleTouchEnd e) = None" by (simp add: handleTouchEnd_def)
  have 1: "dispatch OnTouchMove (TouchEvent []) a = Inr a"
    using c7 by blast
  have 2: "dispatch OnMouseLeave ev a = Inr (a\<lparr>engineRef := Some (handleTouchEnd e)\<rparr>)"
    and 3: "dispatch OnTouchMove (TouchEvent []) a \<noteq> dispatch OnTouchEnd ev a"
    using c7 [THEN conjunct2, THEN conjunct1, rule_format, OF er] t by blast+
  have 4: "OnMouseLeave = OnTouchEnd \<or> OnMouseLeave = OnMouseUp \<or> OnMouseLeave = OnMouseLeave"
    using c7 [THEN conjunct2, THEN conjunct2, rule_format, of e "handleTouchEnd e"] 2 er t t'
    by simp
  show ?thesis
    using 1 2 3 4 er t t' unfolding a_def e_def ev_def by simp
qed

end
